theory Spec2Isabelle
  imports Main
begin

section \<open>Strings\<close>

text \<open>
  Skill names, headings and player ids are JavaScript strings. They are modelled as
  \<^typ>\<open>string\<close> holding ASCII text: \<open>toLowerCase\<close> maps the letters \<open>A\<close> to \<open>Z\<close> to
  \<open>a\<close> to \<open>z\<close> and leaves every other character alone, and \<open>trim\<close> removes the ASCII
  white space (tab, line feed, vertical tab, form feed, carriage return, space) from both
  ends.
\<close>

definition isSpace :: "char \<Rightarrow> bool" where
  "isSpace c = (c \<in> set [CHR 0x09, CHR 0x0A, CHR 0x0B, CHR 0x0C, CHR 0x0D, CHR '' ''])"

definition lowerChar :: "char \<Rightarrow> char" where
  "lowerChar c =
     (case map_of (zip ''ABCDEFGHIJKLMNOPQRSTUVWXYZ'' ''abcdefghijklmnopqrstuvwxyz'') c of
        Some d \<Rightarrow> d
      | None \<Rightarrow> c)"

definition toLowerCase :: "string \<Rightarrow> string" where
  "toLowerCase s = map lowerChar s"

definition trim :: "string \<Rightarrow> string" where
  "trim s = rev (dropWhile isSpace (rev (dropWhile isSpace s)))"

text \<open>\<open>s.startsWith(p)\<close> and \<open>s.includes(p)\<close>.\<close>

fun startsWith :: "string \<Rightarrow> string \<Rightarrow> bool" where
  "startsWith s [] = True"
| "startsWith [] (p # ps) = False"
| "startsWith (c # cs) (p # ps) = (c = p \<and> startsWith cs ps)"

fun includesStr :: "string \<Rightarrow> string \<Rightarrow> bool" where
  "includesStr [] p = (p = [])"
| "includesStr (c # cs) p = (startsWith (c # cs) p \<or> includesStr cs p)"

section \<open>Skill name normalizer\<close>

text \<open>
  \<open>SKILL_NAME_ALIAS\<close> is a \<open>Map\<close> built from a list of pairs; \<open>get\<close> is \<open>map_of\<close> on
  that list. \<open>norm\<close> is \<open>s?.trim().toLowerCase()\<close>: \<open>None\<close> stands for \<open>undefined\<close>
  or \<open>null\<close>, which the optional chaining passes through.
\<close>

definition SKILL_NAME_ALIAS :: "(string \<times> string) list" where
  "SKILL_NAME_ALIAS =
     [(''play intelligence'', ''play intelligence''),
      (''ball control'', ''ball control''),
      (''aerial passing'', ''aerial passing''),
      (''set plays'', ''set plays''),
      (''goalkeeping'', ''keeping''),
      (''keeping'', ''keeping''),
      (''tackling'', ''tackling''),
      (''passing'', ''passing''),
      (''heading'', ''heading''),
      (''shooting'', ''shooting''),
      (''speed'', ''speed''),
      (''stamina'', ''stamina''),
      (''form'', ''form''),
      (''experience'', ''experience'')]"

definition norm :: "string option \<Rightarrow> string option" where
  "norm s = map_option (\<lambda>x. toLowerCase (trim x)) s"

text \<open>
  \<open>SKILL_NAME_ALIAS.get(key) || key\<close>: the alias when the table has one and it is
  truthy (a non-empty string), the key otherwise.
\<close>

definition aliasGet :: "string option \<Rightarrow> string option" where
  "aliasGet key = (case key of None \<Rightarrow> None | Some k \<Rightarrow> map_of SKILL_NAME_ALIAS k)"

definition normalizeSkillName :: "string option \<Rightarrow> string option" where
  "normalizeSkillName name =
     (let key = norm name in
      case aliasGet key of
        Some v \<Rightarrow> if v \<noteq> [] then Some v else key
      | None \<Rightarrow> key)"

section \<open>Scout report parser\<close>

text \<open>
  \<open>parseScoutHTML\<close> hands its text to the browser's \<open>DOMParser\<close>, which accepts every
  string and returns a document. The model starts from that document: a list of top-level
  nodes, each a text node or an element with its tag (in lower case, as the HTML parser
  stores it), its class list and its children.
\<close>

datatype html = HText string | HElem string "string list" "html list"

fun textContent :: "html \<Rightarrow> string" where
  "textContent (HText s) = s"
| "textContent (HElem t cs ks) = concat (map textContent ks)"

text \<open>
  \<open>walk p u n\<close> lists the elements of the subtree at \<open>n\<close> in document order, each with
  the tag of its parent and whether a \<open>ul\<close> element is among its ancestors: the two
  facts the selectors \<open>li > strong\<close> and \<open>ul li\<close> ask about. \<open>p\<close> and \<open>u\<close> are
  those facts for \<open>n\<close> itself. A selector run from an element matches against the
  whole document, so a \<open>ul\<close> above the \<open>dd\<close> counts.
\<close>

type_synonym located = "string \<times> bool \<times> html"

fun walk :: "string \<Rightarrow> bool \<Rightarrow> html \<Rightarrow> located list" where
  "walk p u (HText s) = []"
| "walk p u (HElem t cs ks) =
     (p, u, HElem t cs ks) # concat (map (walk t (u \<or> t = ''ul'')) ks)"

fun tagOf :: "html \<Rightarrow> string" where
  "tagOf (HText s) = []"
| "tagOf (HElem t cs ks) = t"

fun classList :: "html \<Rightarrow> string list" where
  "classList (HText s) = []"
| "classList (HElem t cs ks) = cs"

text \<open>The elements below an element (the element itself is not its own descendant).\<close>

fun below :: "located \<Rightarrow> located list" where
  "below (p, u, HText s) = []"
| "below (p, u, HElem t cs ks) = concat (map (walk t (u \<or> t = ''ul'')) ks)"

text \<open>\<open>doc.querySelectorAll("dd")\<close>.\<close>

definition queryAllDd :: "html list \<Rightarrow> located list" where
  "queryAllDd doc = filter (\<lambda>(p, u, e). tagOf e = ''dd'') (concat (map (walk [] False) doc))"

text \<open>
  \<open>dd.querySelector("li > strong")?.textContent?.trim().toLowerCase()\<close>; \<open>None\<close> is
  \<open>undefined\<close>.
\<close>

definition ddTitle :: "located \<Rightarrow> string option" where
  "ddTitle dd =
     (case find (\<lambda>(p, u, e). tagOf e = ''strong'' \<and> p = ''li'') (below dd) of
        None \<Rightarrow> None
      | Some (p, u, e) \<Rightarrow> Some (toLowerCase (trim (textContent e))))"

text \<open>\<open>/potential|youth training speed/i.test(t)\<close>.\<close>

definition genericEntry :: "string \<Rightarrow> bool" where
  "genericEntry t =
     (includesStr (toLowerCase t) ''potential'' \<or>
      includesStr (toLowerCase t) ''youth training speed'')"

definition ddSkills :: "located \<Rightarrow> string list" where
  "ddSkills dd =
     filter (\<lambda>t. t \<noteq> [] \<and> \<not> genericEntry t)
       (map (\<lambda>(p, u, e). trim (textContent e))
          (filter (\<lambda>(p, u, e). tagOf e = ''li'' \<and> u) (below dd)))"

text \<open>
  The class selectors \<open>.stars\<close> and \<open>.lit\<close>. The fragment carries no doctype, so
  \<open>DOMParser\<close> gives a document in quirks mode, where a class selector matches a class
  name whatever the case of its letters.
\<close>

definition matchesClass :: "string \<Rightarrow> html \<Rightarrow> bool" where
  "matchesClass c e = (toLowerCase c \<in> set (map toLowerCase (classList e)))"

definition ddLitCount :: "located \<Rightarrow> nat option" where
  "ddLitCount dd =
     (case find (\<lambda>(p, u, e). matchesClass ''stars'' e) (below dd) of
        None \<Rightarrow> None
      | Some starContainer \<Rightarrow>
          Some (length (filter (\<lambda>(p, u, e). matchesClass ''lit'' e) (below starContainer))))"

record scout_record =
  highest :: "string list"
  lowest :: "string list"
  starsHigh :: "nat option"
  starsLow :: "nat option"

text \<open>One turn of the loop over the \<open>dd\<close> elements.\<close>

definition parseStep :: "located \<Rightarrow> scout_record \<Rightarrow> scout_record" where
  "parseStep dd acc =
     (case ddTitle dd of
        None \<Rightarrow> acc
      | Some title \<Rightarrow>
          if title = [] then acc
          else
            let skills = ddSkills dd; litCount = ddLitCount dd in
            if includesStr title ''highest''
            then acc\<lparr>highest := skills, starsHigh := litCount\<rparr>
            else if includesStr title ''lowest''
            then acc\<lparr>lowest := skills, starsLow := litCount\<rparr>
            else acc)"

definition emptyRecord :: scout_record where
  "emptyRecord = \<lparr>highest = [], lowest = [], starsHigh = None, starsLow = None\<rparr>"

definition parseScoutHTML :: "html list \<Rightarrow> scout_record" where
  "parseScoutHTML doc = fold parseStep (queryAllDd doc) emptyRecord"

section \<open>Scout cache\<close>

text \<open>
  \<open>localStorage\<close> maps keys to strings. The keys under the prefix are written by
  \<open>setCachedScoutData\<close> only, so a stored string is modelled by what \<open>JSON.parse\<close>
  makes of it: the cache entry that \<open>JSON.stringify\<close> wrote, or text that \<open>JSON.parse\<close>
  rejects (the empty string included, which the code treats the same way). An absent star
  count is dropped by \<open>JSON.stringify\<close> and read back as \<open>undefined\<close>, so the entry
  comes back with the same fields. Two flags say how the browser answers: \<open>blocked\<close>
  when every access to the storage throws, \<open>full\<close> when a write throws for lack of
  quota. Times are the milliseconds that \<open>Date.now()\<close> returns.
\<close>

record cache_entry =
  scoutData :: scout_record
  expires :: nat
  cached :: nat

datatype stored = Unparsable | Entry cache_entry

record local_storage =
  items :: "string \<rightharpoonup> stored"
  blocked :: bool
  full :: bool

datatype error =
  SecurityError | QuotaExceededError | SyntaxError | HttpError nat | NetworkError

definition getItem :: "local_storage \<Rightarrow> string \<Rightarrow> error + stored option" where
  "getItem ls key = (if blocked ls then Inl SecurityError else Inr (items ls key))"

definition setItem :: "local_storage \<Rightarrow> string \<Rightarrow> stored \<Rightarrow> error + local_storage" where
  "setItem ls key v =
     (if blocked ls then Inl SecurityError
      else if full ls then Inl QuotaExceededError
      else Inr (ls\<lparr>items := (items ls)(key \<mapsto> v)\<rparr>))"

definition removeItem :: "local_storage \<Rightarrow> string \<Rightarrow> error + local_storage" where
  "removeItem ls key =
     (if blocked ls then Inl SecurityError
      else Inr (ls\<lparr>items := (items ls)(key := None)\<rparr>))"

definition JSON_parse :: "stored \<Rightarrow> error + cache_entry" where
  "JSON_parse s = (case s of Unparsable \<Rightarrow> Inl SyntaxError | Entry e \<Rightarrow> Inr e)"

definition CACHE_KEY_PREFIX :: string where "CACHE_KEY_PREFIX = ''mz-scout-''"
definition CACHE_VERSION :: string where "CACHE_VERSION = ''v1''"
definition CACHE_EXPIRY_DAYS :: nat where "CACHE_EXPIRY_DAYS = 30"

definition getCacheKey :: "string \<Rightarrow> string" where
  "getCacheKey pid = CACHE_KEY_PREFIX @ CACHE_VERSION @ ''-'' @ pid"

text \<open>
  \<open>getCachedScoutData\<close> returns the record or \<open>null\<close> (\<open>None\<close>), and the storage as it
  leaves it. Every exception inside the \<open>try\<close> ends in the \<open>catch\<close>, which returns
  \<open>null\<close>. \<open>data.expires && now > data.expires\<close>: a number is truthy when it is not 0.
\<close>

definition getCachedScoutData ::
  "local_storage \<Rightarrow> string \<Rightarrow> nat \<Rightarrow> scout_record option \<times> local_storage" where
  "getCachedScoutData ls pid now =
     (let key = getCacheKey pid in
      case getItem ls key of
        Inl err \<Rightarrow> (None, ls)
      | Inr None \<Rightarrow> (None, ls)
      | Inr (Some cachedText) \<Rightarrow>
          (case JSON_parse cachedText of
             Inl err \<Rightarrow> (None, ls)
           | Inr data \<Rightarrow>
               if expires data \<noteq> 0 \<and> now > expires data
               then (case removeItem ls key of
                       Inl err \<Rightarrow> (None, ls)
                     | Inr ls' \<Rightarrow> (None, ls'))
               else (Some (scoutData data), ls)))"

text \<open>
  \<open>setCachedScoutData\<close> reads the clock twice: \<open>now1\<close> for the expiry, \<open>now2\<close> for
  the \<open>cached\<close> field. A failed write is logged and swallowed.
\<close>

definition setCachedScoutData ::
  "local_storage \<Rightarrow> string \<Rightarrow> scout_record \<Rightarrow> nat \<Rightarrow> nat \<Rightarrow> local_storage" where
  "setCachedScoutData ls pid sd now1 now2 =
     (let key = getCacheKey pid;
          expiryTime = now1 + CACHE_EXPIRY_DAYS * 24 * 60 * 60 * 1000;
          cacheEntry = \<lparr>scoutData = sd, expires = expiryTime, cached = now2\<rparr>
      in case setItem ls key (Entry cacheEntry) of
           Inl err \<Rightarrow> ls
         | Inr ls' \<Rightarrow> ls')"

section \<open>Scout fetcher\<close>

text \<open>
  The world of \<open>fetchScout\<close> is the storage and the list of the requests sent so far.
  The answer of the network to the request, if one is sent, is a parameter: the request
  fails, or a response arrives with its status and its body (as the document the parser
  makes of it). \<open>res.ok\<close> holds for the statuses 200 to 299. The result is the record,
  or the error the function throws.
\<close>

record world =
  storage :: local_storage
  requests :: "string list"

datatype response = Failed | Response nat "html list"

definition scoutUrl :: "string \<Rightarrow> string" where
  "scoutUrl pid =
     ''https://www.managerzone.com/ajax.php?p=players&sub=scout_report&pid='' @ pid @
     ''&sport=soccer''"

definition fetchScout ::
  "world \<Rightarrow> string \<Rightarrow> response \<Rightarrow> nat \<Rightarrow> nat \<Rightarrow> nat \<Rightarrow> (error + scout_record) \<times> world" where
  "fetchScout w pid res now now1 now2 =
     (case getCachedScoutData (storage w) pid now of
        (Some cachedData, ls) \<Rightarrow> (Inr cachedData, w\<lparr>storage := ls\<rparr>)
      | (None, ls) \<Rightarrow>
          let w1 = w\<lparr>storage := ls, requests := requests w @ [scoutUrl pid]\<rparr> in
          (case res of
             Failed \<Rightarrow> (Inl NetworkError, w1)
           | Response status body \<Rightarrow>
               if \<not> (200 \<le> status \<and> status \<le> 299) then (Inl (HttpError status), w1)
               else
                 let sd = parseScoutHTML body in
                 (Inr sd, w1\<lparr>storage := setCachedScoutData (storage w1) pid sd now1 now2\<rparr>)))"

section \<open>Flag placement\<close>

text \<open>
  The skills table of a player container is the list of its rows
  (\<open>container.querySelectorAll(".player_skills tr")\<close>, in document order), a row the list
  of its \<open>td\<close> children, a cell its \<open>width\<close> attribute and its child nodes. A node
  inside a cell is text, an image, or another element with its class list and children.
  The model covers the tables of the player pages: the children of a row are \<open>td\<close>
  cells, a cell holds no table of its own, and the table does not stand inside a cell of
  another table. On these \<open>td:first-child\<close> is the first cell of the row and
  \<open>:scope > td\<close> are its cells. Rows and cells are referred to by their position,
  which the placement never changes: it only replaces the children of cells.
\<close>

datatype node = Text string | Elem "string list" "node list" | Img string nat nat

record cell =
  widthAttr :: "string option"
  kids :: "node list"

type_synonym row = "cell list"

fun nodeText :: "node \<Rightarrow> string" where
  "nodeText (Text s) = s"
| "nodeText (Elem cs ks) = concat (map nodeText ks)"
| "nodeText (Img src w h) = []"

fun nodeElems :: "node \<Rightarrow> node list" where
  "nodeElems (Text s) = []"
| "nodeElems (Elem cs ks) = Elem cs ks # concat (map nodeElems ks)"
| "nodeElems (Img src w h) = [Img src w h]"

fun hasClass :: "string \<Rightarrow> node \<Rightarrow> bool" where
  "hasClass c (Elem cs ks) = (c \<in> set cs)"
| "hasClass c n = False"

text \<open>\<open>tr.querySelector("td:first-child .clippable")\<close>.\<close>

definition nameSpan :: "row \<Rightarrow> node option" where
  "nameSpan tr =
     (case tr of
        [] \<Rightarrow> None
      | td # rest \<Rightarrow> find (hasClass ''clippable'') (concat (map nodeElems (kids td))))"

text \<open>
  \<open>getFlagCells\<close> gives the positions of the cells in the row: the second to fourth
  when the row has four cells or more, else the first three that carry the width 7 or 6.
\<close>

definition getFlagCells :: "row \<Rightarrow> nat list" where
  "getFlagCells tr =
     (if length tr \<ge> 4 then [1, 2, 3]
      else take 3 (filter (\<lambda>j. widthAttr (tr ! j) = Some ''7'' \<or> widthAttr (tr ! j) = Some ''6'')
                     [0..<length tr]))"

definition clearFlagCells :: "nat list \<Rightarrow> row \<Rightarrow> row" where
  "clearFlagCells cells tr = fold (\<lambda>j r. r[j := (r ! j)\<lparr>kids := []\<rparr>]) cells tr"

datatype color = green | yellow | red

fun FLAG_IMG :: "color \<Rightarrow> string" where
  "FLAG_IMG green = ''img/flag_green.png''"
| "FLAG_IMG yellow = ''img/flag_yellow.png''"
| "FLAG_IMG red = ''img/flag_red.png''"

definition flagImg :: "color \<Rightarrow> node" where
  "flagImg c = Img (FLAG_IMG c) 6 10"

definition setFlagsInCells :: "nat list \<Rightarrow> color \<Rightarrow> nat \<Rightarrow> row \<Rightarrow> row" where
  "setFlagsInCells cells c count tr =
     fold (\<lambda>j r. r[j := (r ! j)\<lparr>kids := kids (r ! j) @ [flagImg c]\<rparr>])
       (take (min count (length cells)) cells)
       (clearFlagCells cells tr)"

text \<open>
  The lookup from name to rows. \<open>applyFlagsToContainer\<close> has a \<open>norm\<close> of its own,
  \<open>s?.trim().toLowerCase()\<close>, the same function as the outer \<open>norm\<close>; it does not
  call \<open>normalizeSkillName\<close>.
\<close>

fun buildNameToRows :: "(nat \<times> row) list \<Rightarrow> (string \<rightharpoonup> nat list) \<Rightarrow> (string \<rightharpoonup> nat list)" where
  "buildNameToRows [] m = m"
| "buildNameToRows ((i, tr) # rest) m =
     (case nameSpan tr of
        None \<Rightarrow> buildNameToRows rest m
      | Some sp \<Rightarrow>
          (case norm (Some (nodeText sp)) of
             None \<Rightarrow> buildNameToRows rest m
           | Some key \<Rightarrow>
               (case m key of
                  None \<Rightarrow> buildNameToRows rest (m(key \<mapsto> [i]))
                | Some trs \<Rightarrow> buildNameToRows rest (m(key \<mapsto> trs @ [i])))))"

definition highCount :: "nat option \<Rightarrow> nat" where
  "highCount stars =
     (if stars = Some 4 then 3 else if stars = Some 3 then 2 else if stars = Some 2 then 1 else 0)"

definition lowSpec :: "nat option \<Rightarrow> (color \<times> nat) option" where
  "lowSpec stars =
     (if stars = Some 2 then Some (yellow, 1)
      else if stars = Some 1 then Some (red, 1)
      else None)"

text \<open>
  \<open>nameToRows.get(norm(skill))\<close>; a skill the lookup does not have is skipped
  (\<open>if (!trs) continue\<close>), which is a loop over no rows.
\<close>

definition lookupRows :: "(string \<rightharpoonup> nat list) \<Rightarrow> string \<Rightarrow> nat list" where
  "lookupRows nameToRows skill =
     (case norm (Some skill) of
        None \<Rightarrow> []
      | Some key \<Rightarrow> (case nameToRows key of None \<Rightarrow> [] | Some trs \<Rightarrow> trs))"

text \<open>
  The two loops over the skills of a list. The flag cells of a row are looked up when
  its turn comes, in the table as the earlier turns left it.
\<close>

definition highPass :: "(string \<rightharpoonup> nat list) \<Rightarrow> nat \<Rightarrow> string list \<Rightarrow> row list \<Rightarrow> row list" where
  "highPass nameToRows hc skills rows =
     fold (\<lambda>skill t.
             fold (\<lambda>i t'. t'[i := setFlagsInCells (getFlagCells (t' ! i)) green hc (t' ! i)])
               (lookupRows nameToRows skill) t)
       skills rows"

definition lowPass ::
  "(string \<rightharpoonup> nat list) \<Rightarrow> color \<times> nat \<Rightarrow> string list \<Rightarrow> row list \<Rightarrow> row list" where
  "lowPass nameToRows spec skills rows =
     fold (\<lambda>skill t.
             fold (\<lambda>i t'.
                     t'[i := setFlagsInCells (getFlagCells (t' ! i)) (fst spec) (snd spec)
                               (clearFlagCells (getFlagCells (t' ! i)) (t' ! i))])
               (lookupRows nameToRows skill) t)
       skills rows"

definition applyFlagsToContainer ::
  "row list \<Rightarrow> string list \<Rightarrow> string list \<Rightarrow> nat option \<Rightarrow> nat option \<Rightarrow> row list" where
  "applyFlagsToContainer rows hi lo sH sL =
     (if rows = [] then rows
      else
        let nameToRows = buildNameToRows (enumerate 0 rows) Map.empty;
            hc = highCount sH;
            ls = lowSpec sL;
            rows1 = (if hc > 0 then highPass nameToRows hc hi rows else rows)
        in case ls of
             None \<Rightarrow> rows1
           | Some spec \<Rightarrow> lowPass nameToRows spec lo rows1)"

section \<open>Notions used in the statements\<close>

text \<open>
  The definitions below are not part of the program. They name what the theorems talk
  about: the key of a row, the rows a list of skills names, the effect of one placement
  on a row, and the block of a report a field is read from.
\<close>

text \<open>The key under which \<open>applyFlagsToContainer\<close> enters a row in its lookup.\<close>

definition rowKey :: "row \<Rightarrow> string option" where
  "rowKey tr = (case nameSpan tr of None \<Rightarrow> None | Some sp \<Rightarrow> norm (Some (nodeText sp)))"

text \<open>Whether a row is named by one of the skills of a list.\<close>

definition named :: "string list \<Rightarrow> row \<Rightarrow> bool" where
  "named skills tr = (\<exists>s\<in>set skills. rowKey tr = norm (Some s))"

text \<open>
  What \<open>setFlagsInCells\<close> leaves of a row when it is given the row's own flag cells:
  the first \<open>n\<close> of them hold one flag, the others are empty, every other cell is as
  it was.
\<close>

definition rowSet :: "color \<Rightarrow> nat \<Rightarrow> row \<Rightarrow> row" where
  "rowSet c n tr =
     map (\<lambda>j. if j \<in> set (take n (getFlagCells tr)) then (tr ! j)\<lparr>kids := [flagImg c]\<rparr>
              else if j \<in> set (getFlagCells tr) then (tr ! j)\<lparr>kids := []\<rparr>
              else tr ! j)
       [0..<length tr]"

text \<open>What a whole call leaves of one row: the low placement wins over the high one.\<close>

definition rowResult :: "string list \<Rightarrow> string list \<Rightarrow> nat option \<Rightarrow> nat option \<Rightarrow> row \<Rightarrow> row" where
  "rowResult hi lo sH sL tr =
     (case lowSpec sL of
        Some (c, n) \<Rightarrow>
          if named lo tr then rowSet c n tr
          else if highCount sH > 0 \<and> named hi tr then rowSet green (highCount sH) tr
          else tr
      | None \<Rightarrow>
          if highCount sH > 0 \<and> named hi tr then rowSet green (highCount sH) tr
          else tr)"

text \<open>A pass over a list of skills with one operation on the rows found.\<close>

definition pass :: "(string \<rightharpoonup> nat list) \<Rightarrow> (row \<Rightarrow> row) \<Rightarrow> string list \<Rightarrow> row list \<Rightarrow> row list" where
  "pass nameToRows f skills rows =
     fold (\<lambda>skill t. fold (\<lambda>i t'. t'[i := f (t' ! i)]) (lookupRows nameToRows skill) t)
       skills rows"

definition orEmpty :: "'a list option \<Rightarrow> 'a list" where
  "orEmpty x = (case x of None \<Rightarrow> [] | Some xs \<Rightarrow> xs)"

text \<open>The lifetime of a cache entry in milliseconds.\<close>

definition EXPIRY_MS :: nat where
  "EXPIRY_MS = CACHE_EXPIRY_DAYS * 24 * 60 * 60 * 1000"

text \<open>
  What the loop of \<open>parseScoutHTML\<close> takes a block for: the test for "highest" comes
  first, so a heading that holds both words counts as highest only.
\<close>

definition isHighest :: "located \<Rightarrow> bool" where
  "isHighest dd =
     (case ddTitle dd of None \<Rightarrow> False | Some title \<Rightarrow> includesStr title ''highest'')"

definition isLowest :: "located \<Rightarrow> bool" where
  "isLowest dd =
     (case ddTitle dd of
        None \<Rightarrow> False
      | Some title \<Rightarrow> \<not> includesStr title ''highest'' \<and> includesStr title ''lowest'')"

definition lastWhere :: "('a \<Rightarrow> bool) \<Rightarrow> 'a list \<Rightarrow> 'a option" where
  "lastWhere P xs = find P (rev xs)"

definition firstWhere :: "('a \<Rightarrow> bool) \<Rightarrow> 'a list \<Rightarrow> 'a option" where
  "firstWhere P xs = find P xs"

section \<open>Example data\<close>

text \<open>Rows of a skills table: the name cell and the cells of width 7, 7 and 6.\<close>

definition passingRow :: row where
  "passingRow =
     [\<lparr>widthAttr = None, kids = [Elem [''clippable''] [Text ''Passing'']]\<rparr>,
      \<lparr>widthAttr = Some ''7'', kids = [Text ''old'']\<rparr>,
      \<lparr>widthAttr = Some ''7'', kids = []\<rparr>,
      \<lparr>widthAttr = Some ''6'', kids = []\<rparr>]"

definition tacklingRow :: row where
  "tacklingRow =
     [\<lparr>widthAttr = None, kids = [Elem [''clippable''] [Text ''Tackling'']]\<rparr>,
      \<lparr>widthAttr = Some ''7'', kids = []\<rparr>,
      \<lparr>widthAttr = Some ''7'', kids = []\<rparr>,
      \<lparr>widthAttr = Some ''6'', kids = []\<rparr>]"

definition keepingRow :: row where
  "keepingRow =
     [\<lparr>widthAttr = None, kids = [Elem [''clippable''] [Text ''Keeping'']]\<rparr>,
      \<lparr>widthAttr = Some ''7'', kids = []\<rparr>,
      \<lparr>widthAttr = Some ''7'', kids = []\<rparr>,
      \<lparr>widthAttr = Some ''6'', kids = []\<rparr>]"

text \<open>A row of three cells whose name cell carries the width 7 as well.\<close>

definition narrowRow :: row where
  "narrowRow =
     [\<lparr>widthAttr = Some ''7'', kids = [Elem [''clippable''] [Text ''Passing'']]\<rparr>,
      \<lparr>widthAttr = Some ''7'', kids = []\<rparr>,
      \<lparr>widthAttr = Some ''6'', kids = []\<rparr>]"

text \<open>
  A block of a scout report: the heading and the skills as list items, and a star widget
  with \<open>lit\<close> lit stars.
\<close>

definition block :: "string \<Rightarrow> string list \<Rightarrow> nat \<Rightarrow> html" where
  "block title skills lit =
     HElem ''dd'' []
       [HElem ''ul'' []
          (HElem ''li'' [] [HElem ''strong'' [] [HText title]] #
           map (\<lambda>s. HElem ''li'' [] [HText s]) skills),
        HElem ''span'' [''stars'']
          (replicate lit (HElem ''i'' [''lit''] []) @ replicate (4 - lit) (HElem ''i'' [] []))]"

definition twoHighest :: "html list" where
  "twoHighest =
     [HElem ''dl'' []
        [block ''Highest potential'' [''Passing''] 3,
         block ''Highest potential'' [''Speed''] 1]]"

definition fiveLit :: "html list" where
  "fiveLit =
     [HElem ''dl'' []
        [block ''Highest potential'' [''Passing''] 5,
         block ''Lowest potential'' [''Speed''] 7]]"

text \<open>
  A fragment without a recognised heading: text that only looks like markup, a block
  without a heading, a block headed otherwise, and a block whose \<open>strong\<close> is not
  the child of a list item.
\<close>

definition noHeadings :: "html list" where
  "noHeadings =
     [HElem ''div'' [] [HText ''<dd><ul><li>''],
      HElem ''dl'' []
        [HElem ''dd'' [] [HElem ''ul'' [] [HElem ''li'' [] [HText ''Passing'']]],
         block ''Summary'' [''Speed''] 2,
         HElem ''dd'' [] [HElem ''strong'' [] [HText ''Highest potential'']]]]"

definition okStorage :: local_storage where
  "okStorage = \<lparr>items = Map.empty, blocked = False, full = False\<rparr>"

definition sampleRecord :: scout_record where
  "sampleRecord =
     \<lparr>highest = [''Passing''], lowest = [''Tackling''], starsHigh = Some 3, starsLow = None\<rparr>"

section \<open>Properties of the string functions\<close>

lemma lowerChar_idem: "lowerChar (lowerChar c) = lowerChar c"
  by (simp add: lowerChar_def)

lemma isSpace_lowerChar: "isSpace (lowerChar c) = isSpace c"
  by (simp add: lowerChar_def isSpace_def)

lemma toLowerCase_idem: "toLowerCase (toLowerCase s) = toLowerCase s"
  by (simp add: toLowerCase_def lowerChar_idem)

lemma trim_toLowerCase: "trim (toLowerCase s) = toLowerCase (trim s)"
  by (simp add: trim_def toLowerCase_def dropWhile_map rev_map comp_def isSpace_lowerChar)

lemma dropWhile_rev_dropWhile:
  "dropWhile P (rev (dropWhile P (rev (dropWhile P s)))) = rev (dropWhile P (rev (dropWhile P s)))"
proof -
  define a where "a = dropWhile P s"
  define b where "b = rev (dropWhile P (rev a))"
  have split: "a = b @ rev (takeWhile P (rev a))"
  proof -
    have "rev (rev a) = rev (takeWhile P (rev a) @ dropWhile P (rev a))"
      by (simp only: takeWhile_dropWhile_id)
    then have "a = rev (dropWhile P (rev a)) @ rev (takeWhile P (rev a))"
      by (simp only: rev_rev_ident rev_append)
    then show ?thesis by (simp only: b_def)
  qed
  have "dropWhile P b = b"
  proof (cases b)
    case Nil
    then show ?thesis by simp
  next
    case (Cons x xs)
    with split have ne: "a \<noteq> []" and hd: "hd a = x"
      by (metis append_is_Nil_conv list.distinct(1), metis hd_append2 list.distinct(1) list.sel(1))
    from ne have "\<not> P (hd a)" unfolding a_def by (rule hd_dropWhile)
    with hd Cons show ?thesis by simp
  qed
  then show ?thesis by (simp add: a_def b_def)
qed

lemma trim_idem: "trim (trim s) = trim s"
  by (simp add: trim_def dropWhile_rev_dropWhile)

lemma toLowerCase_trim_idem:
  "toLowerCase (trim (toLowerCase (trim s))) = toLowerCase (trim s)"
  by (simp add: trim_toLowerCase trim_idem toLowerCase_idem)

lemma norm_idem: "norm (norm s) = norm s"
  by (cases s) (simp_all add: norm_def toLowerCase_trim_idem)

text \<open>Every value of the alias table is left alone by \<open>norm\<close> and is its own alias.\<close>

lemma alias_values_canonical:
  "map_of SKILL_NAME_ALIAS k = Some v \<Longrightarrow>
     v \<noteq> [] \<and> toLowerCase (trim v) = v \<and> map_of SKILL_NAME_ALIAS v = Some v"
  by (auto simp add: SKILL_NAME_ALIAS_def toLowerCase_def trim_def isSpace_def lowerChar_def
      split: if_splits)

section \<open>Properties of the parser\<close>

lemma includesStr_nonempty: "includesStr title (p # ps) \<Longrightarrow> title \<noteq> []"
  by (cases title) simp_all

text \<open>One turn of the loop, by what the block is taken for.\<close>

lemma parseStep_cases:
  "parseStep dd acc =
     (if isHighest dd then acc\<lparr>highest := ddSkills dd, starsHigh := ddLitCount dd\<rparr>
      else if isLowest dd then acc\<lparr>lowest := ddSkills dd, starsLow := ddLitCount dd\<rparr>
      else acc)"
  by (auto simp add: parseStep_def isHighest_def isLowest_def Let_def
      split: option.splits dest: includesStr_nonempty)

lemma lastWhere_snoc:
  "lastWhere P (xs @ [x]) = (if P x then Some x else lastWhere P xs)"
  by (simp add: lastWhere_def)

lemma lastWhere_mem: "lastWhere P xs = Some x \<Longrightarrow> x \<in> set xs"
proof -
  assume "lastWhere P xs = Some x"
  then obtain i where "i < length (rev xs)" and "x = rev xs ! i"
    by (auto simp add: lastWhere_def find_Some_iff)
  then have "x \<in> set (rev xs)" by (simp only: nth_mem)
  then show ?thesis by simp
qed

lemma fold_parseStep_high:
  "highest (fold parseStep dds acc) =
     (case lastWhere isHighest dds of None \<Rightarrow> highest acc | Some dd \<Rightarrow> ddSkills dd) \<and>
   starsHigh (fold parseStep dds acc) =
     (case lastWhere isHighest dds of None \<Rightarrow> starsHigh acc | Some dd \<Rightarrow> ddLitCount dd)"
proof (induction dds rule: rev_induct)
  case Nil
  then show ?case by (simp add: lastWhere_def)
next
  case (snoc dd dds)
  then show ?case
    by (simp add: parseStep_cases lastWhere_snoc)
qed

lemma fold_parseStep_low:
  "lowest (fold parseStep dds acc) =
     (case lastWhere isLowest dds of None \<Rightarrow> lowest acc | Some dd \<Rightarrow> ddSkills dd) \<and>
   starsLow (fold parseStep dds acc) =
     (case lastWhere isLowest dds of None \<Rightarrow> starsLow acc | Some dd \<Rightarrow> ddLitCount dd)"
proof (induction dds rule: rev_induct)
  case Nil
  then show ?case by (simp add: lastWhere_def)
next
  case (snoc dd dds)
  have "isLowest dd \<Longrightarrow> \<not> isHighest dd"
    by (auto simp add: isLowest_def isHighest_def split: option.splits)
  with snoc show ?case
    by (auto simp add: parseStep_cases lastWhere_snoc)
qed

lemma emptyRecord_fields:
  "highest emptyRecord = []" "starsHigh emptyRecord = None"
  "lowest emptyRecord = []" "starsLow emptyRecord = None"
  by (simp_all add: emptyRecord_def)

lemma fold_parseStep_unrecognised:
  "(\<forall>dd \<in> set dds. \<not> isHighest dd \<and> \<not> isLowest dd) \<Longrightarrow> fold parseStep dds acc = acc"
  by (induction dds arbitrary: acc) (simp_all add: parseStep_cases)

section \<open>Properties of the cache\<close>

lemma setCached_ok:
  "\<not> blocked ls \<Longrightarrow> \<not> full ls \<Longrightarrow>
     setCachedScoutData ls pid sd now1 now2 =
       ls\<lparr>items := (items ls)(getCacheKey pid \<mapsto>
              Entry \<lparr>scoutData = sd, expires = now1 + EXPIRY_MS, cached = now2\<rparr>)\<rparr>"
  by (simp add: setCachedScoutData_def setItem_def EXPIRY_MS_def)

lemma getCached_entry:
  "\<not> blocked ls \<Longrightarrow> items ls (getCacheKey pid) = Some (Entry e) \<Longrightarrow>
     getCachedScoutData ls pid now =
       (if expires e \<noteq> 0 \<and> now > expires e
        then (None, ls\<lparr>items := (items ls)(getCacheKey pid := None)\<rparr>)
        else (Some (scoutData e), ls))"
  by (simp add: getCachedScoutData_def getItem_def JSON_parse_def removeItem_def)

text \<open>Reading leaves the two flags of the storage as they are.\<close>

lemma getCached_flags:
  "blocked (snd (getCachedScoutData ls pid now)) = blocked ls \<and>
   full (snd (getCachedScoutData ls pid now)) = full ls"
  by (auto simp add: getCachedScoutData_def getItem_def JSON_parse_def removeItem_def Let_def
      split: option.splits stored.splits)

lemma EXPIRY_MS_value: "EXPIRY_MS = 30 * 24 * 60 * 60 * 1000"
  by (simp add: EXPIRY_MS_def CACHE_EXPIRY_DAYS_def)

lemma getCached_after_set:
  assumes "\<not> blocked ls" and "\<not> full ls"
  shows "getCachedScoutData (setCachedScoutData ls pid sd now1 now2) pid now =
       (if now > now1 + EXPIRY_MS
        then (None, (setCachedScoutData ls pid sd now1 now2)
                      \<lparr>items := (items (setCachedScoutData ls pid sd now1 now2))
                                   (getCacheKey pid := None)\<rparr>)
        else (Some sd, setCachedScoutData ls pid sd now1 now2))"
proof -
  let ?ls = "setCachedScoutData ls pid sd now1 now2"
  let ?e = "\<lparr>scoutData = sd, expires = now1 + EXPIRY_MS, cached = now2\<rparr>"
  have written: "?ls = ls\<lparr>items := (items ls)(getCacheKey pid \<mapsto> Entry ?e)\<rparr>"
    using assms by (rule setCached_ok)
  have nb: "\<not> blocked ?ls" using assms by (simp add: written)
  have it: "items ?ls (getCacheKey pid) = Some (Entry ?e)" by (simp add: written)
  have "getCachedScoutData ?ls pid now =
       (if expires ?e \<noteq> 0 \<and> now > expires ?e
        then (None, ?ls\<lparr>items := (items ?ls)(getCacheKey pid := None)\<rparr>)
        else (Some (scoutData ?e), ?ls))"
    using nb it by (rule getCached_entry)
  then show ?thesis by (simp add: EXPIRY_MS_value)
qed

section \<open>Properties of the flag placement\<close>

subsection \<open>Updating the entries of a list at given positions\<close>

lemma fold_update_length:
  "length (fold (\<lambda>i t. t[i := f (t ! i)]) is t) = length t"
  by (induction "is" arbitrary: t) simp_all

lemma fold_update_nth_distinct:
  "distinct is \<Longrightarrow> j < length t \<Longrightarrow>
     fold (\<lambda>i t. t[i := f (t ! i)]) is t ! j = (if j \<in> set is then f (t ! j) else t ! j)"
proof (induction "is" arbitrary: t)
  case Nil
  then show ?case by simp
next
  case (Cons i "is")
  then show ?case by (cases "j = i") auto
qed

lemma fold_update_nth_idem:
  "(\<And>x. f (f x) = f x) \<Longrightarrow> j < length t \<Longrightarrow>
     fold (\<lambda>i t. t[i := f (t ! i)]) is t ! j = (if j \<in> set is then f (t ! j) else t ! j)"
proof (induction "is" arbitrary: t)
  case Nil
  then show ?case by simp
next
  case (Cons i "is")
  then show ?case by (cases "j = i") auto
qed

subsection \<open>One row\<close>

lemma getFlagCells_distinct: "distinct (getFlagCells tr)"
  by (simp add: getFlagCells_def distinct_take)

lemma clearFlagCells_length: "length (clearFlagCells cells tr) = length tr"
  using fold_update_length [of "\<lambda>x. x\<lparr>kids := []\<rparr>" cells tr]
  by (simp add: clearFlagCells_def)

lemma setFlagsInCells_length: "length (setFlagsInCells cells c n tr) = length tr"
  using fold_update_length [of "\<lambda>x. x\<lparr>kids := kids x @ [flagImg c]\<rparr>"
      "take (min n (length cells)) cells" "clearFlagCells cells tr"]
  by (simp add: setFlagsInCells_def clearFlagCells_length)

lemma clearFlagCells_nth:
  "j < length tr \<Longrightarrow>
     clearFlagCells cells tr ! j = (if j \<in> set cells then (tr ! j)\<lparr>kids := []\<rparr> else tr ! j)"
  unfolding clearFlagCells_def
  using fold_update_nth_idem [of "\<lambda>x. x\<lparr>kids := []\<rparr>" j tr cells] by simp

text \<open>\<open>setFlagsInCells\<close> on the flag cells of the row itself, in closed form.\<close>

lemma setFlagsInCells_rowSet:
  "setFlagsInCells (getFlagCells tr) c n tr = rowSet c n tr"
proof (rule nth_equalityI)
  show "length (setFlagsInCells (getFlagCells tr) c n tr) = length (rowSet c n tr)"
    by (simp add: setFlagsInCells_length rowSet_def)
next
  fix j assume "j < length (setFlagsInCells (getFlagCells tr) c n tr)"
  then have j: "j < length tr"
    by (simp add: setFlagsInCells_length)
  have t: "take (min n (length (getFlagCells tr))) (getFlagCells tr) = take n (getFlagCells tr)"
    by (simp add: min_def)
  have d: "distinct (take n (getFlagCells tr))"
    by (simp add: getFlagCells_distinct distinct_take)
  from j have j': "j < length (clearFlagCells (getFlagCells tr) tr)"
    by (simp add: clearFlagCells_length)
  have "setFlagsInCells (getFlagCells tr) c n tr ! j =
        (if j \<in> set (take n (getFlagCells tr))
         then (clearFlagCells (getFlagCells tr) tr ! j)
                \<lparr>kids := kids (clearFlagCells (getFlagCells tr) tr ! j) @ [flagImg c]\<rparr>
         else clearFlagCells (getFlagCells tr) tr ! j)"
    using fold_update_nth_distinct [OF d j',
        of "\<lambda>x. x\<lparr>kids := kids x @ [flagImg c]\<rparr>"]
    by (simp add: setFlagsInCells_def t)
  then show "setFlagsInCells (getFlagCells tr) c n tr ! j = rowSet c n tr ! j"
    using j by (auto simp add: rowSet_def clearFlagCells_nth dest: in_set_takeD)
qed

lemma rowSet_length: "length (rowSet c n tr) = length tr"
  by (simp add: rowSet_def)

lemma rowSet_widthAttr: "j < length tr \<Longrightarrow> widthAttr (rowSet c n tr ! j) = widthAttr (tr ! j)"
  by (simp add: rowSet_def)

lemma rowSet_nth_other:
  "j < length tr \<Longrightarrow> j \<notin> set (getFlagCells tr) \<Longrightarrow> rowSet c n tr ! j = tr ! j"
  by (auto simp add: rowSet_def dest: in_set_takeD)

text \<open>The flag cells depend on the number of cells and on their widths only.\<close>

lemma getFlagCells_cong:
  assumes "length tr' = length tr"
    and "\<And>j. j < length tr \<Longrightarrow> widthAttr (tr' ! j) = widthAttr (tr ! j)"
  shows "getFlagCells tr' = getFlagCells tr"
proof -
  have "filter (\<lambda>j. widthAttr (tr' ! j) = Some ''7'' \<or> widthAttr (tr' ! j) = Some ''6'')
          [0..<length tr]
      = filter (\<lambda>j. widthAttr (tr ! j) = Some ''7'' \<or> widthAttr (tr ! j) = Some ''6'')
          [0..<length tr]"
    by (rule filter_cong) (simp_all add: assms(2))
  with assms(1) show ?thesis by (simp add: getFlagCells_def)
qed

lemma getFlagCells_rowSet: "getFlagCells (rowSet c n tr) = getFlagCells tr"
  by (rule getFlagCells_cong) (simp_all add: rowSet_length rowSet_widthAttr)

lemma zero_flag_cell:
  "0 \<in> set (getFlagCells tr) \<Longrightarrow>
     length tr < 4 \<and> (widthAttr (tr ! 0) = Some ''7'' \<or> widthAttr (tr ! 0) = Some ''6'')"
  by (auto simp add: getFlagCells_def split: if_splits dest: in_set_takeD)

text \<open>A placement wipes out what an earlier placement left in the row.\<close>

lemma rowSet_absorb: "rowSet c' n' (rowSet c n tr) = rowSet c' n' tr"
proof (rule nth_equalityI)
  show "length (rowSet c' n' (rowSet c n tr)) = length (rowSet c' n' tr)"
    by (simp add: rowSet_length)
next
  fix j assume "j < length (rowSet c' n' (rowSet c n tr))"
  then have j: "j < length tr" by (simp add: rowSet_length)
  have inner: "rowSet c n tr ! j =
        (if j \<in> set (take n (getFlagCells tr)) then (tr ! j)\<lparr>kids := [flagImg c]\<rparr>
         else if j \<in> set (getFlagCells tr) then (tr ! j)\<lparr>kids := []\<rparr>
         else tr ! j)"
    using j by (simp add: rowSet_def)
  have outer: "rowSet c' n' (rowSet c n tr) ! j =
        (if j \<in> set (take n' (getFlagCells tr)) then (rowSet c n tr ! j)\<lparr>kids := [flagImg c']\<rparr>
         else if j \<in> set (getFlagCells tr) then (rowSet c n tr ! j)\<lparr>kids := []\<rparr>
         else rowSet c n tr ! j)"
    using j by (simp add: rowSet_def [of c' n'] getFlagCells_rowSet rowSet_length)
  have plain: "rowSet c' n' tr ! j =
        (if j \<in> set (take n' (getFlagCells tr)) then (tr ! j)\<lparr>kids := [flagImg c']\<rparr>
         else if j \<in> set (getFlagCells tr) then (tr ! j)\<lparr>kids := []\<rparr>
         else tr ! j)"
    using j by (simp add: rowSet_def)
  show "rowSet c' n' (rowSet c n tr) ! j = rowSet c' n' tr ! j"
    unfolding outer plain inner by (auto dest: in_set_takeD)
qed

lemma clearFlagCells_twice:
  "clearFlagCells cells (clearFlagCells cells tr) = clearFlagCells cells tr"
  by (rule nth_equalityI) (simp_all add: clearFlagCells_length clearFlagCells_nth)

lemma clear_then_set:
  "setFlagsInCells cells c n (clearFlagCells cells tr) = setFlagsInCells cells c n tr"
  by (simp add: setFlagsInCells_def clearFlagCells_twice clearFlagCells_length)


subsection \<open>The name of a row after a placement\<close>



lemma norm_Some: "norm (Some s) = Some (toLowerCase (trim s))"
  by (simp add: norm_def)


subsection \<open>The lookup from name to rows\<close>

lemma orEmpty_simps: "orEmpty None = []" "orEmpty (Some xs) = xs"
  by (simp_all add: orEmpty_def)

lemma buildNameToRows_lookup:
  "orEmpty (buildNameToRows irs m k) =
     orEmpty (m k) @ map fst (filter (\<lambda>(i, tr). rowKey tr = Some k) irs)"
proof (induction irs arbitrary: m)
  case Nil
  then show ?case by simp
next
  case (Cons a irs)
  obtain i tr where a: "a = (i, tr)" by (cases a)
  show ?case
  proof (cases "nameSpan tr")
    case None
    then show ?thesis by (simp add: a Cons.IH rowKey_def)
  next
    case (Some sp)
    then have key: "rowKey tr = Some (toLowerCase (trim (nodeText sp)))"
      by (simp add: rowKey_def norm_Some)
    show ?thesis
      by (cases "m (toLowerCase (trim (nodeText sp)))")
        (auto simp add: a Some key norm_Some Cons.IH orEmpty_simps)
  qed
qed

lemma enumerate_filter_fst:
  "map fst (filter (\<lambda>(i, x). P x) (enumerate 0 xs)) = filter (\<lambda>i. P (xs ! i)) [0..<length xs]"
proof -
  have "enumerate 0 xs = map (\<lambda>i. (i, xs ! i)) [0..<length xs]"
    by (rule nth_equalityI) (simp_all add: nth_enumerate_eq)
  then show ?thesis
    by (simp add: filter_map comp_def)
qed

text \<open>A skill finds the rows whose key is the skill's own, in the order of the table.\<close>

lemma lookupRows_build:
  "lookupRows (buildNameToRows (enumerate 0 rows) Map.empty) skill =
     filter (\<lambda>i. rowKey (rows ! i) = norm (Some skill)) [0..<length rows]"
proof -
  have "lookupRows (buildNameToRows (enumerate 0 rows) Map.empty) skill =
        orEmpty (buildNameToRows (enumerate 0 rows) Map.empty (toLowerCase (trim skill)))"
    by (simp add: lookupRows_def norm_Some orEmpty_def)
  also have "\<dots> = map fst (filter (\<lambda>(i, tr). rowKey tr = Some (toLowerCase (trim skill)))
                          (enumerate 0 rows))"
    by (simp add: buildNameToRows_lookup orEmpty_simps)
  finally show ?thesis
    by (simp add: enumerate_filter_fst norm_Some)
qed

subsection \<open>The two passes and the whole call\<close>

lemma pass_length: "length (pass m f skills t) = length t"
  unfolding pass_def
  by (induction skills arbitrary: t) (simp_all add: fold_update_length)

lemma pass_nth:
  assumes idem: "\<And>x. f (f x) = f x"
  shows "i < length t \<Longrightarrow>
     pass m f skills t ! i =
       (if \<exists>s\<in>set skills. i \<in> set (lookupRows m s) then f (t ! i) else t ! i)"
proof (induction skills arbitrary: t)
  case Nil
  then show ?case by (simp add: pass_def)
next
  case (Cons s skills)
  let ?t1 = "fold (\<lambda>i t'. t'[i := f (t' ! i)]) (lookupRows m s) t"
  have len: "i < length ?t1" using Cons.prems by (simp add: fold_update_length)
  have step: "?t1 ! i = (if i \<in> set (lookupRows m s) then f (t ! i) else t ! i)"
    using Cons.prems idem by (rule fold_update_nth_idem [rotated])
  have "pass m f (s # skills) t = pass m f skills ?t1"
    by (simp add: pass_def)
  then show ?case
    using Cons.IH [OF len] step idem by auto
qed

lemma highPass_pass: "highPass m hc skills rows = pass m (rowSet green hc) skills rows"
  by (simp add: highPass_def pass_def setFlagsInCells_rowSet)

lemma lowPass_pass: "lowPass m (c, n) skills rows = pass m (rowSet c n) skills rows"
  by (simp add: lowPass_def pass_def clear_then_set setFlagsInCells_rowSet)

lemma applyFlags_length: "length (applyFlagsToContainer rows hi lo sH sL) = length rows"
  by (auto simp add: applyFlagsToContainer_def Let_def highPass_pass lowPass_pass pass_length
      split: option.splits)

lemma applyFlags_nth:
  assumes i: "i < length rows"
  shows "applyFlagsToContainer rows hi lo sH sL ! i = rowResult hi lo sH sL (rows ! i)"
proof -
  let ?m = "buildNameToRows (enumerate 0 rows) Map.empty"
  have look: "\<And>skills. (\<exists>s\<in>set skills. i \<in> set (lookupRows ?m s)) = named skills (rows ! i)"
    using i by (simp add: lookupRows_build named_def)
  let ?rows1 = "if highCount sH > 0 then pass ?m (rowSet green (highCount sH)) hi rows else rows"
  have r1: "?rows1 ! i =
      (if highCount sH > 0 \<and> named hi (rows ! i) then rowSet green (highCount sH) (rows ! i)
       else rows ! i)"
    using i by (simp add: pass_nth rowSet_absorb look)
  have l1: "i < length ?rows1" using i by (simp add: pass_length)
  from i have ne: "rows \<noteq> []" by auto
  show ?thesis
  proof (cases "lowSpec sL")
    case None
    then have "applyFlagsToContainer rows hi lo sH sL = ?rows1"
      using ne by (simp add: applyFlagsToContainer_def Let_def highPass_pass)
    then have "applyFlagsToContainer rows hi lo sH sL ! i = ?rows1 ! i"
      by (simp only:)
    then show ?thesis
      unfolding r1 by (simp add: rowResult_def None)
  next
    case (Some spec)
    obtain c n where spec: "spec = (c, n)" by (cases spec)
    have "applyFlagsToContainer rows hi lo sH sL = pass ?m (rowSet c n) lo ?rows1"
      using ne Some spec
      by (simp add: applyFlagsToContainer_def Let_def highPass_pass lowPass_pass)
    then have "applyFlagsToContainer rows hi lo sH sL ! i = pass ?m (rowSet c n) lo ?rows1 ! i"
      by (simp only:)
    also have "\<dots> = (if \<exists>s\<in>set lo. i \<in> set (lookupRows ?m s)
                        then rowSet c n (?rows1 ! i) else ?rows1 ! i)"
      using l1 by (rule pass_nth [rotated]) (rule rowSet_absorb)
    finally have "applyFlagsToContainer rows hi lo sH sL ! i =
        (if named lo (rows ! i) then rowSet c n (?rows1 ! i) else ?rows1 ! i)"
      by (simp only: look)
    then show ?thesis
      unfolding r1 by (simp add: rowResult_def Some spec rowSet_absorb)
  qed
qed



lemma rowResult_length: "length (rowResult hi lo sH sL tr) = length tr"
  by (auto simp add: rowResult_def rowSet_length split: option.splits)

lemma rowResult_widthAttr:
  "j < length tr \<Longrightarrow> widthAttr (rowResult hi lo sH sL tr ! j) = widthAttr (tr ! j)"
  by (auto simp add: rowResult_def rowSet_widthAttr split: option.splits)

lemma rowResult_nth_other:
  "j < length tr \<Longrightarrow> j \<notin> set (getFlagCells tr) \<Longrightarrow> rowResult hi lo sH sL tr ! j = tr ! j"
  by (auto simp add: rowResult_def rowSet_nth_other split: option.splits)

lemma rowResult_unnamed:
  "\<not> (0 < highCount sH \<and> named hi tr) \<Longrightarrow> \<not> (lowSpec sL \<noteq> None \<and> named lo tr) \<Longrightarrow>
     rowResult hi lo sH sL tr = tr"
  by (auto simp add: rowResult_def split: option.splits)

section \<open>Claims\<close>

subsection \<open>C1: the flag counts\<close>



subsection \<open>C2: reading the cache after writing it\<close>

text \<open>
  Claim C2 says that the record is returned as long as the time is within 30 days of
  \<open>cachedAt\<close>, the expiry being \<open>cachedAt\<close> plus 30 days. It fails:
  \<open>setCachedScoutData\<close> reads the clock twice, first for the expiry and then for the
  \<open>cached\<close> field, and the window counts from the first reading. When the clock
  shows 1000 ms at the first reading and 1001 ms at the second, the entry has
  \<open>cached\<close> 1001 and expires at 2592001000, one millisecond before \<open>cached\<close>
  plus 30 days; a lookup at \<open>cached\<close> plus 30 days, which the claim counts as inside
  the window, returns \<open>null\<close> and removes the entry.
\<close>

theorem cached_plus_30_days_counterexample:
  "items (setCachedScoutData okStorage ''42'' sampleRecord 1000 1001) (getCacheKey ''42'') =
     Some (Entry \<lparr>scoutData = sampleRecord, expires = 2592001000, cached = 1001\<rparr>) \<and>
   (1001::nat) + 30 * 24 * 60 * 60 * 1000 = 2592001001 \<and>
   getCachedScoutData (setCachedScoutData okStorage ''42'' sampleRecord 1000 1001) ''42''
       2592001001 \<noteq>
     (Some sampleRecord, setCachedScoutData okStorage ''42'' sampleRecord 1000 1001) \<and>
   fst (getCachedScoutData (setCachedScoutData okStorage ''42'' sampleRecord 1000 1001) ''42''
          2592001001) = None \<and>
   items (snd (getCachedScoutData (setCachedScoutData okStorage ''42'' sampleRecord 1000 1001)
                 ''42'' 2592001001)) (getCacheKey ''42'') = None"
  by (simp add: setCachedScoutData_def setItem_def getCachedScoutData_def getItem_def
      removeItem_def JSON_parse_def okStorage_def CACHE_EXPIRY_DAYS_def)

text \<open>
  Claim C2, amended. When the storage takes the write, \<open>setCachedScoutData\<close> stores
  under the key of the player an entry that expires 30 days after the clock reading
  \<open>now1\<close> taken for the expiry; its \<open>cached\<close> field is the second reading
  \<open>now2\<close>, so the expiry is \<open>cached\<close> plus 30 days exactly when the two readings
  agree. A later \<open>getCachedScoutData\<close> for the same player returns the record that
  was stored, and leaves the storage alone, as long as the time is not past the expiry;
  past the expiry it returns \<open>null\<close> and the entry is gone from the storage.
\<close>

theorem cache_get_after_set:
  assumes "\<not> blocked ls" and "\<not> full ls"
  shows
    "items (setCachedScoutData ls pid sd now1 now2) (getCacheKey pid) =
       Some (Entry \<lparr>scoutData = sd, expires = now1 + 30 * 24 * 60 * 60 * 1000, cached = now2\<rparr>) \<and>
     (now \<le> now1 + 30 * 24 * 60 * 60 * 1000 \<longrightarrow>
        getCachedScoutData (setCachedScoutData ls pid sd now1 now2) pid now =
          (Some sd, setCachedScoutData ls pid sd now1 now2)) \<and>
     (now > now1 + 30 * 24 * 60 * 60 * 1000 \<longrightarrow>
        fst (getCachedScoutData (setCachedScoutData ls pid sd now1 now2) pid now) = None \<and>
        items (snd (getCachedScoutData (setCachedScoutData ls pid sd now1 now2) pid now))
          (getCacheKey pid) = None)"
proof -
  have "items (setCachedScoutData ls pid sd now1 now2) (getCacheKey pid) =
       Some (Entry \<lparr>scoutData = sd, expires = now1 + EXPIRY_MS, cached = now2\<rparr>)"
    using assms by (simp add: setCached_ok)
  then show ?thesis
    using getCached_after_set [OF assms, of pid sd now1 now2 now]
    by (simp add: EXPIRY_MS_value)
qed

text \<open>
  Written at 1000 ms: read back on the last millisecond of the 30 days, and gone one
  millisecond later.
\<close>

theorem cache_get_after_set_witness:
  "\<not> blocked okStorage \<and> \<not> full okStorage \<and>
   getCachedScoutData (setCachedScoutData okStorage ''42'' sampleRecord 1000 1001) ''42'' 2592001000 =
     (Some sampleRecord, setCachedScoutData okStorage ''42'' sampleRecord 1000 1001) \<and>
   fst (getCachedScoutData (setCachedScoutData okStorage ''42'' sampleRecord 1000 1001) ''42''
          2592001001) = None \<and>
   items (snd (getCachedScoutData (setCachedScoutData okStorage ''42'' sampleRecord 1000 1001)
                 ''42'' 2592001001)) (getCacheKey ''42'') = None"
proof -
  have a: "\<not> blocked okStorage" and b: "\<not> full okStorage"
    by (simp_all add: okStorage_def)
  from cache_get_after_set [OF a b, of "''42''" sampleRecord 1000 1001 2592001000]
    cache_get_after_set [OF a b, of "''42''" sampleRecord 1000 1001 2592001001] a b
  show ?thesis by simp
qed

subsection \<open>C3: several blocks with the same heading\<close>

text \<open>
  Claim C3 says that of several blocks headed "highest" the first one fills the record.
  It fails: every such block overwrites what the one before it wrote. In the report
  \<open>twoHighest\<close> both blocks are recognised as highest, the first lists Passing with
  three stars, the second Speed with one star, and the record has Speed and one star.
\<close>

theorem first_block_counterexample:
  "map isHighest (queryAllDd twoHighest) = [True, True] \<and>
   map ddSkills (queryAllDd twoHighest) = [[''Passing''], [''Speed'']] \<and>
   map ddLitCount (queryAllDd twoHighest) = [Some 3, Some 1] \<and>
   highest (parseScoutHTML twoHighest) = [''Speed''] \<and>
   starsHigh (parseScoutHTML twoHighest) = Some 1 \<and>
   highest (parseScoutHTML twoHighest) \<noteq>
     (case firstWhere isHighest (queryAllDd twoHighest) of None \<Rightarrow> [] | Some dd \<Rightarrow> ddSkills dd)"
  by code_simp

text \<open>
  Claim C3, amended. The highest list and \<open>starsHigh\<close> come from the last block of the
  document whose heading contains "highest", and the lowest list and \<open>starsLow\<close> from
  the last block whose heading contains "lowest" and not "highest"; earlier such blocks
  are overwritten. Without such a block the fields keep their defaults.
\<close>

theorem parse_last_block_wins:
  "highest (parseScoutHTML doc) =
     (case lastWhere isHighest (queryAllDd doc) of None \<Rightarrow> [] | Some dd \<Rightarrow> ddSkills dd) \<and>
   starsHigh (parseScoutHTML doc) =
     (case lastWhere isHighest (queryAllDd doc) of None \<Rightarrow> None | Some dd \<Rightarrow> ddLitCount dd) \<and>
   lowest (parseScoutHTML doc) =
     (case lastWhere isLowest (queryAllDd doc) of None \<Rightarrow> [] | Some dd \<Rightarrow> ddSkills dd) \<and>
   starsLow (parseScoutHTML doc) =
     (case lastWhere isLowest (queryAllDd doc) of None \<Rightarrow> None | Some dd \<Rightarrow> ddLitCount dd)"
  using fold_parseStep_high [of "queryAllDd doc" emptyRecord]
    fold_parseStep_low [of "queryAllDd doc" emptyRecord]
  by (simp add: parseScoutHTML_def emptyRecord_fields cong: option.case_cong)

theorem parse_last_block_wins_witness:
  "map isHighest (queryAllDd twoHighest) = [True, True] \<and>
   highest (parseScoutHTML twoHighest) = [''Speed''] \<and>
   starsHigh (parseScoutHTML twoHighest) = Some 1 \<and>
   lowest (parseScoutHTML twoHighest) = [] \<and>
   starsLow (parseScoutHTML twoHighest) = None"
proof -
  have a: "map isHighest (queryAllDd twoHighest) = [True, True]"
    by code_simp
  have h: "(case lastWhere isHighest (queryAllDd twoHighest) of
              None \<Rightarrow> [] | Some dd \<Rightarrow> ddSkills dd) = [''Speed'']"
    by code_simp
  have sh: "(case lastWhere isHighest (queryAllDd twoHighest) of
              None \<Rightarrow> None | Some dd \<Rightarrow> ddLitCount dd) = Some 1"
    by code_simp
  have l: "(case lastWhere isLowest (queryAllDd twoHighest) of
              None \<Rightarrow> [] | Some dd \<Rightarrow> ddSkills dd) = []"
    by code_simp
  have sl: "(case lastWhere isLowest (queryAllDd twoHighest) of
              None \<Rightarrow> None | Some dd \<Rightarrow> ddLitCount dd) = None"
    by code_simp
  from parse_last_block_wins [of twoHighest] a show ?thesis
    by (simp only: h sh l sl)
qed

subsection \<open>C4: aliases in the placement\<close>

text \<open>
  Claim C4 says that a record entry "Goalkeeping" is placed on the row named "Keeping".
  \<open>normalizeSkillName\<close> does send both names to the key "keeping", but
  \<open>applyFlagsToContainer\<close> compares the names after trimming and lower-casing only:
  with four high stars the row "Keeping" stays as it is.
\<close>

theorem goalkeeping_row_not_flagged:
  "normalizeSkillName (Some ''Goalkeeping'') = Some ''keeping'' \<and>
   normalizeSkillName (Some ''Keeping'') = Some ''keeping'' \<and>
   applyFlagsToContainer [keepingRow] [''Goalkeeping''] [] (Some 4) None = [keepingRow]"
  by code_simp

subsection \<open>C5: two fetches in a row\<close>

text \<open>
  Claim C5. Two calls of \<open>fetchScout\<close> for the same player, the second made after
  the first has returned. For a player whose lookup in the cache misses, when the storage
  takes the write and the server answers the request with a success status, the first
  call sends one request, parses the body and returns the record; the second call, within
  the 30 days, returns the same record from the cache and sends nothing, whatever the
  network would answer. After both calls exactly one request has been added to the list.
\<close>

theorem fetch_twice_one_request:
  assumes uncached: "fst (getCachedScoutData (storage w) pid now) = None"
    and usable: "\<not> blocked (storage w)" "\<not> full (storage w)"
    and ok: "200 \<le> status" "status \<le> 299"
    and window: "now' \<le> now1 + 30 * 24 * 60 * 60 * 1000"
  shows
    "requests (snd (fetchScout w pid (Response status body) now now1 now2)) =
       requests w @ [scoutUrl pid] \<and>
     fst (fetchScout w pid (Response status body) now now1 now2) = Inr (parseScoutHTML body) \<and>
     requests (snd (fetchScout (snd (fetchScout w pid (Response status body) now now1 now2))
                      pid res' now' now1' now2')) =
       requests w @ [scoutUrl pid] \<and>
     fst (fetchScout (snd (fetchScout w pid (Response status body) now now1 now2))
            pid res' now' now1' now2') = Inr (parseScoutHTML body)"
proof -
  obtain ls0 where g0: "getCachedScoutData (storage w) pid now = (None, ls0)"
    using uncached by (cases "getCachedScoutData (storage w) pid now") simp
  have fl: "\<not> blocked ls0" "\<not> full ls0"
    using getCached_flags [of "storage w" pid now] usable by (simp_all add: g0)
  let ?sd = "parseScoutHTML body"
  let ?ls1 = "setCachedScoutData ls0 pid ?sd now1 now2"
  let ?w1 = "w\<lparr>storage := ?ls1, requests := requests w @ [scoutUrl pid]\<rparr>"
  have first: "fetchScout w pid (Response status body) now now1 now2 = (Inr ?sd, ?w1)"
    using ok by (simp add: fetchScout_def g0 Let_def)
  have hit: "getCachedScoutData ?ls1 pid now' = (Some ?sd, ?ls1)"
    using getCached_after_set [OF fl, of pid ?sd now1 now2 now'] window
    by (simp add: EXPIRY_MS_value)
  have second: "fetchScout ?w1 pid res' now' now1' now2' = (Inr ?sd, ?w1)"
    by (simp add: fetchScout_def hit)
  show ?thesis
    by (simp add: first second)
qed

text \<open>
  Player 42 with an empty storage: the first call gets status 200, the second is made
  four seconds later with the network down.
\<close>

theorem fetch_twice_one_request_witness:
  "fst (getCachedScoutData (storage \<lparr>storage = okStorage, requests = []\<rparr>) ''42'' 1000) = None \<and>
   requests (snd (fetchScout
       (snd (fetchScout \<lparr>storage = okStorage, requests = []\<rparr> ''42'' (Response 200 twoHighest)
               1000 1001 1002))
       ''42'' Failed 5000 5001 5002)) =
     [''https://www.managerzone.com/ajax.php?p=players&sub=scout_report&pid=42&sport=soccer''] \<and>
   fst (fetchScout
       (snd (fetchScout \<lparr>storage = okStorage, requests = []\<rparr> ''42'' (Response 200 twoHighest)
               1000 1001 1002))
       ''42'' Failed 5000 5001 5002) = Inr (parseScoutHTML twoHighest)"
proof -
  let ?w = "\<lparr>storage = okStorage, requests = []\<rparr>"
  have a: "fst (getCachedScoutData (storage ?w) ''42'' 1000) = None"
    by (simp add: getCachedScoutData_def getItem_def okStorage_def)
  have b: "\<not> blocked (storage ?w)" "\<not> full (storage ?w)"
    by (simp_all add: okStorage_def)
  have c: "(200::nat) \<le> 200" "(200::nat) \<le> 299"
    "(5000::nat) \<le> 1001 + 30 * 24 * 60 * 60 * 1000"
    by simp_all
  from fetch_twice_one_request [OF a b c, of twoHighest 1002 Failed 5001 5002] a
  show ?thesis by (simp add: scoutUrl_def)
qed

subsection \<open>C6: fragments without a recognised heading\<close>

text \<open>
  Claim C6. \<open>parseScoutHTML\<close> has a record for every document: nothing in it can
  throw, and the model has no error to return. When no block of the document has a
  heading that contains "highest" or "lowest", the record is the default one: both
  lists empty and both star counts absent.
\<close>

theorem parse_no_heading:
  assumes "\<forall>dd \<in> set (queryAllDd doc). \<not> isHighest dd \<and> \<not> isLowest dd"
  shows "parseScoutHTML doc =
           \<lparr>highest = [], lowest = [], starsHigh = None, starsLow = None\<rparr>"
  using assms fold_parseStep_unrecognised [of "queryAllDd doc" emptyRecord]
  by (simp add: parseScoutHTML_def emptyRecord_def)

theorem parse_no_heading_witness:
  "map (\<lambda>dd. isHighest dd \<or> isLowest dd) (queryAllDd noHeadings) = [False, False, False] \<and>
   parseScoutHTML noHeadings = \<lparr>highest = [], lowest = [], starsHigh = None, starsLow = None\<rparr> \<and>
   parseScoutHTML [] = \<lparr>highest = [], lowest = [], starsHigh = None, starsLow = None\<rparr>"
proof -
  have m: "map (\<lambda>dd. isHighest dd \<or> isLowest dd) (queryAllDd noHeadings) = [False, False, False]"
    by code_simp
  have "\<forall>b \<in> set (map (\<lambda>dd. isHighest dd \<or> isLowest dd) (queryAllDd noHeadings)). \<not> b"
    unfolding m by simp
  then have a: "\<forall>dd \<in> set (queryAllDd noHeadings). \<not> isHighest dd \<and> \<not> isLowest dd"
    by simp
  have b: "\<forall>dd \<in> set (queryAllDd []). \<not> isHighest dd \<and> \<not> isLowest dd"
    by (simp add: queryAllDd_def)
  from parse_no_heading [OF a] parse_no_heading [OF b] m show ?thesis
    by simp
qed

subsection \<open>C7: placing the flags twice\<close>



subsection \<open>C8: the normalizer\<close>

text \<open>
  Claim C8. \<open>normalizeSkillName\<close> is idempotent: normalising a normalised name gives
  the same canonical key again, for every input, the absent one included.
\<close>

theorem normalizeSkillName_idempotent:
  "normalizeSkillName (normalizeSkillName x) = normalizeSkillName x"
proof (cases "aliasGet (norm x)")
  case None
  then have first: "normalizeSkillName x = norm x"
    by (simp add: normalizeSkillName_def)
  from None show ?thesis
    by (simp add: first) (simp add: normalizeSkillName_def norm_idem)
next
  case (Some v)
  then obtain k where k: "norm x = Some k" and kv: "map_of SKILL_NAME_ALIAS k = Some v"
    by (auto simp: aliasGet_def split: option.splits)
  from alias_values_canonical [OF kv]
  have v: "v \<noteq> []" "toLowerCase (trim v) = v" "map_of SKILL_NAME_ALIAS v = Some v"
    by simp_all
  from Some v have first: "normalizeSkillName x = Some v"
    by (simp add: normalizeSkillName_def)
  from v show ?thesis
    by (simp add: first) (simp add: normalizeSkillName_def norm_def aliasGet_def)
qed

theorem normalizeSkillName_idempotent_witness:
  "normalizeSkillName (Some ''  GoalKeeping '') = Some ''keeping'' \<and>
   normalizeSkillName (normalizeSkillName (Some ''  GoalKeeping '')) = Some ''keeping''"
proof -
  have a: "normalizeSkillName (Some ''  GoalKeeping '') = Some ''keeping''"
    by (simp add: normalizeSkillName_def norm_def aliasGet_def SKILL_NAME_ALIAS_def
        toLowerCase_def trim_def isSpace_def lowerChar_def)
  with normalizeSkillName_idempotent [of "Some ''  GoalKeeping ''"] show ?thesis
    by simp
qed

subsection \<open>C9: the range of the star counts\<close>

text \<open>
  Claim C9 says that the star counts of a record are absent or between 0 and 4. It
  fails: the count is the number of lit elements the parser finds in the star widget,
  whatever that number is. The report \<open>fiveLit\<close> has five lit stars in its highest
  block and seven in its lowest.
\<close>

theorem stars_range_counterexample:
  "starsHigh (parseScoutHTML fiveLit) = Some 5 \<and>
   starsLow (parseScoutHTML fiveLit) = Some 7 \<and>
   \<not> (case starsHigh (parseScoutHTML fiveLit) of None \<Rightarrow> True | Some n \<Rightarrow> n \<le> 4)"
  by code_simp

text \<open>
  Claim C9, amended. Each star count of the record is absent or is the count of lit
  elements in the star widget of a block of the document, a natural number; it is at
  most 4 when no star widget of the document holds more than four lit elements.
\<close>

theorem stars_are_lit_counts:
  "(starsHigh (parseScoutHTML doc) = None \<or>
      (\<exists>dd \<in> set (queryAllDd doc). starsHigh (parseScoutHTML doc) = ddLitCount dd)) \<and>
   (starsLow (parseScoutHTML doc) = None \<or>
      (\<exists>dd \<in> set (queryAllDd doc). starsLow (parseScoutHTML doc) = ddLitCount dd)) \<and>
   ((\<forall>dd \<in> set (queryAllDd doc). case ddLitCount dd of None \<Rightarrow> True | Some n \<Rightarrow> n \<le> 4) \<longrightarrow>
      (case starsHigh (parseScoutHTML doc) of None \<Rightarrow> True | Some n \<Rightarrow> n \<le> 4) \<and>
      (case starsLow (parseScoutHTML doc) of None \<Rightarrow> True | Some n \<Rightarrow> n \<le> 4))"
proof -
  have h: "starsHigh (parseScoutHTML doc) = None \<or>
      (\<exists>dd \<in> set (queryAllDd doc). starsHigh (parseScoutHTML doc) = ddLitCount dd)"
    using fold_parseStep_high [of "queryAllDd doc" emptyRecord]
    by (auto simp add: parseScoutHTML_def emptyRecord_def split: option.splits
        dest: lastWhere_mem)
  have l: "starsLow (parseScoutHTML doc) = None \<or>
      (\<exists>dd \<in> set (queryAllDd doc). starsLow (parseScoutHTML doc) = ddLitCount dd)"
    using fold_parseStep_low [of "queryAllDd doc" emptyRecord]
    by (auto simp add: parseScoutHTML_def emptyRecord_def split: option.splits
        dest: lastWhere_mem)
  from h l show ?thesis
    by (auto split: option.splits)
qed

theorem stars_are_lit_counts_witness:
  "map ddLitCount (queryAllDd twoHighest) = [Some 3, Some 1] \<and>
   (case starsHigh (parseScoutHTML twoHighest) of None \<Rightarrow> True | Some n \<Rightarrow> n \<le> 4) \<and>
   (case starsLow (parseScoutHTML twoHighest) of None \<Rightarrow> True | Some n \<Rightarrow> n \<le> 4)"
proof -
  have m: "map ddLitCount (queryAllDd twoHighest) = [Some 3, Some 1]"
    by code_simp
  have "\<forall>c \<in> set (map ddLitCount (queryAllDd twoHighest)).
          case c of None \<Rightarrow> True | Some n \<Rightarrow> n \<le> 4"
    unfolding m by simp
  then have a: "\<forall>dd \<in> set (queryAllDd twoHighest).
                  case ddLitCount dd of None \<Rightarrow> True | Some n \<Rightarrow> n \<le> 4"
    by simp
  from stars_are_lit_counts [of twoHighest] a m show ?thesis
    by blast
qed

subsection \<open>C10: what the placement leaves alone\<close>

text \<open>
  Claim C10 says that the name cell of every row is left unchanged. It fails on a row
  of fewer than four cells whose name cell carries the width 7 or 6: the fallback of
  \<open>getFlagCells\<close> selects cells by width wherever they stand, so the name cell of
  \<open>narrowRow\<close> is cleared and gets a flag.
\<close>

theorem first_cell_counterexample:
  "nameSpan narrowRow = Some (Elem [''clippable''] [Text ''Passing'']) \<and>
   getFlagCells narrowRow = [0, 1, 2] \<and>
   applyFlagsToContainer [narrowRow] [''Passing''] [] (Some 4) None ! 0 ! 0 =
     \<lparr>widthAttr = Some ''7'', kids = [Img ''img/flag_green.png'' 6 10]\<rparr> \<and>
   applyFlagsToContainer [narrowRow] [''Passing''] [] (Some 4) None ! 0 ! 0 \<noteq> narrowRow ! 0"
  by code_simp

text \<open>
  Claim C10, amended. \<open>applyFlagsToContainer\<close> keeps the number of rows, the number of
  cells of every row and the width of every cell. A row that neither list names with a
  flag to place (a positive high count, or a low flag) is left unchanged in every cell.
  In every row the cells outside the flag cells of \<open>getFlagCells\<close> (the second to
  fourth cell, or the cells the width fallback selects) are left unchanged. The name
  (first) cell is left unchanged in every row that has four cells or more, or whose
  first cell carries neither the width 7 nor the width 6.
\<close>

theorem applyFlags_frame:
  assumes i: "i < length rows"
  shows
    "length (applyFlagsToContainer rows hi lo sH sL) = length rows \<and>
     length (applyFlagsToContainer rows hi lo sH sL ! i) = length (rows ! i) \<and>
     (\<not> (0 < highCount sH \<and> named hi (rows ! i)) \<and>
      \<not> (lowSpec sL \<noteq> None \<and> named lo (rows ! i)) \<longrightarrow>
        applyFlagsToContainer rows hi lo sH sL ! i = rows ! i) \<and>
     (\<forall>j < length (rows ! i).
        widthAttr (applyFlagsToContainer rows hi lo sH sL ! i ! j) = widthAttr (rows ! i ! j) \<and>
        (j \<notin> set (getFlagCells (rows ! i)) \<longrightarrow>
           applyFlagsToContainer rows hi lo sH sL ! i ! j = rows ! i ! j)) \<and>
     (rows ! i \<noteq> [] \<and>
      (4 \<le> length (rows ! i) \<or>
       (widthAttr (rows ! i ! 0) \<noteq> Some ''7'' \<and> widthAttr (rows ! i ! 0) \<noteq> Some ''6'')) \<longrightarrow>
        applyFlagsToContainer rows hi lo sH sL ! i ! 0 = rows ! i ! 0)"
proof -
  have res: "applyFlagsToContainer rows hi lo sH sL ! i = rowResult hi lo sH sL (rows ! i)"
    using i by (rule applyFlags_nth)
  have first: "applyFlagsToContainer rows hi lo sH sL ! i ! 0 = rows ! i ! 0"
    if "rows ! i \<noteq> []"
      and "4 \<le> length (rows ! i) \<or>
        (widthAttr (rows ! i ! 0) \<noteq> Some ''7'' \<and> widthAttr (rows ! i ! 0) \<noteq> Some ''6'')"
  proof -
    from that(2) have "0 \<notin> set (getFlagCells (rows ! i))"
      using zero_flag_cell [of "rows ! i"] by auto
    with that(1) show ?thesis
      unfolding res by (simp add: rowResult_nth_other)
  qed
  show ?thesis
    using first
    by (simp add: applyFlags_length res rowResult_length rowResult_widthAttr
        rowResult_nth_other rowResult_unnamed)
qed

text \<open>
  With "Passing" in the highest list and four stars, the row "Tackling" is untouched,
  and so is the name cell of the row "Passing".
\<close>

theorem applyFlags_frame_witness:
  "(1::nat) < length [passingRow, tacklingRow] \<and>
   \<not> named [''Passing''] tacklingRow \<and>
   applyFlagsToContainer [passingRow, tacklingRow] [''Passing''] [] (Some 4) None ! 1 = tacklingRow \<and>
   applyFlagsToContainer [passingRow, tacklingRow] [''Passing''] [] (Some 4) None ! 0 ! 0 =
     passingRow ! 0"
proof -
  have n: "\<not> named [''Passing''] tacklingRow"
    by code_simp
  have l: "4 \<le> length passingRow" by (simp add: passingRow_def)
  have ne: "passingRow \<noteq> []" by (simp add: passingRow_def)
  from applyFlags_frame [of 1 "[passingRow, tacklingRow]" "[''Passing'']" "[]" "Some 4" None]
    applyFlags_frame [of 0 "[passingRow, tacklingRow]" "[''Passing'']" "[]" "Some 4" None]
    n l ne
  show ?thesis by (simp add: named_def lowSpec_def)
qed

end
